theory Spec2Isabelle
  imports Complex_Main
begin

section \<open>settings.ts\<close>

definition MAX_RECENT :: nat where
  "MAX_RECENT = 3"

definition MIN_PORT :: rat where
  "MIN_PORT = 1024"

definition MAX_PORT :: rat where
  "MAX_PORT = 65535"

text \<open>
  The argument of \<open>validatePort\<close> is a JavaScript number. Every finite double is a
  rational, and \<open>Number.isInteger\<close>, \<open><\<close> and \<open>></\<close> on finite doubles are the
  rational ones, so a finite number is modelled by its rational value; the three
  non-finite numbers are constructors of their own.
\<close>

datatype js_number = Finite rat | NaN | PosInfinity | NegInfinity

fun Number_isInteger :: "js_number \<Rightarrow> bool" where
  "Number_isInteger (Finite r) = (of_int \<lfloor>r\<rfloor> = r)"
| "Number_isInteger NaN = False"
| "Number_isInteger PosInfinity = False"
| "Number_isInteger NegInfinity = False"

text \<open>JavaScript's \<open>a < b\<close> on numbers: false whenever an operand is NaN.\<close>

fun js_lt :: "js_number \<Rightarrow> js_number \<Rightarrow> bool" where
  "js_lt NaN _ = False"
| "js_lt _ NaN = False"
| "js_lt (Finite a) (Finite b) = (a < b)"
| "js_lt (Finite _) PosInfinity = True"
| "js_lt (Finite _) NegInfinity = False"
| "js_lt PosInfinity _ = False"
| "js_lt NegInfinity NegInfinity = False"
| "js_lt NegInfinity _ = True"

definition js_gt :: "js_number \<Rightarrow> js_number \<Rightarrow> bool" where
  "js_gt a b = js_lt b a"

text \<open>
  \<open>validatePort\<close> returns \<open>null\<close> (here \<open>None\<close>) or a message built by the
  translation function \<open>t\<close> of i18n.ts. The dictionaries \<open>t\<close> reads (lang/en.json,
  lang/ja.json) are not part of the sources, so \<open>t\<close> is a parameter: it takes the key
  and the variables and returns a string.
\<close>

type_synonym translate = "string \<Rightarrow> (string \<times> js_number) list \<Rightarrow> string"

definition validatePort :: "translate \<Rightarrow> js_number \<Rightarrow> string option" where
  "validatePort t port =
     (if \<not> Number_isInteger port then Some (t ''settings.error.port_is_int'' [])
      else if js_lt port (Finite MIN_PORT) \<or> js_gt port (Finite MAX_PORT) then
        Some (t ''settings.error.port_out_range''
               [(''PORT'', port), (''MIN_PORT'', Finite MIN_PORT), (''MAX_PORT'', Finite MAX_PORT)])
      else None)"

section \<open>Values that \<open>JSON.parse\<close> returns\<close>

text \<open>
  The handler destructures whatever \<open>JSON.parse(body)\<close> returns, so the three fields
  range over every JavaScript value a JSON text can denote, and \<open>undefined\<close> for a
  missing property. A number is kept as the text \<open>Number::toString\<close> gives for it: that
  text is what the log line shows, and two numbers a JSON text can denote have the same
  text exactly when \<open>includes\<close> (SameValueZero) takes them for equal. An object is the
  list of its own properties, each key once.
\<close>

datatype js_val =
    JUndefined
  | JNull
  | JBool bool
  | JNum string
  | JStr string
  | JArr "js_val list"
  | JObj "(string \<times> js_val) list"

text \<open>
  Property read \<open>v.key\<close> for the keys the handler uses (\<open>query\<close>, \<open>url\<close>,
  \<open>timestamp\<close>): an object gives its own property, and every other value (boxed
  primitive or array, whose prototypes have none of the three) gives \<open>undefined\<close>.
\<close>

fun get_prop :: "js_val \<Rightarrow> string \<Rightarrow> js_val" where
  "get_prop (JObj ps) k = (case map_of ps k of Some v \<Rightarrow> v | None \<Rightarrow> JUndefined)"
| "get_prop _ k = JUndefined"

text \<open>
  \<open>const { query, url, timestamp } = v\<close>: a TypeError (\<open>None\<close>) when \<open>v\<close> is
  \<open>null\<close> or \<open>undefined\<close>, the three property reads otherwise.
\<close>

fun destructure :: "js_val \<Rightarrow> (js_val \<times> js_val \<times> js_val) option" where
  "destructure JNull = None"
| "destructure JUndefined = None"
| "destructure v = Some (get_prop v ''query'', get_prop v ''url'', get_prop v ''timestamp'')"

text \<open>
  SameValueZero, the comparison of \<open>Array.prototype.includes\<close> (here
  \<open>array_includes\<close>). Primitives compare by
  value. An object or array is equal only to itself, and the value of a request is
  created by that request's \<open>JSON.parse\<close>, so it is never the same object as one
  recorded from an earlier request.
\<close>

fun same_value_zero :: "js_val \<Rightarrow> js_val \<Rightarrow> bool" where
  "same_value_zero JUndefined JUndefined = True"
| "same_value_zero JNull JNull = True"
| "same_value_zero (JBool a) (JBool b) = (a = b)"
| "same_value_zero (JNum a) (JNum b) = (a = b)"
| "same_value_zero (JStr a) (JStr b) = (a = b)"
| "same_value_zero _ _ = False"

definition array_includes :: "js_val list \<Rightarrow> js_val \<Rightarrow> bool" where
  "array_includes xs q = list_ex (\<lambda>x. same_value_zero x q) xs"

text \<open>
  String conversion in a template literal. \<open>None\<close> is a TypeError: an object with an
  own property \<open>toString\<close> (never callable in a value from JSON) has no primitive
  value. An array is the join of its elements with commas, \<open>null\<close> and \<open>undefined\<close>
  elements giving the empty string.
\<close>

fun to_string :: "js_val \<Rightarrow> string option"
  and join_elems :: "js_val list \<Rightarrow> string option"
  and elem_string :: "js_val \<Rightarrow> string option" where
  "to_string JUndefined = Some ''undefined''"
| "to_string JNull = Some ''null''"
| "to_string (JBool b) = Some (if b then ''true'' else ''false'')"
| "to_string (JNum s) = Some s"
| "to_string (JStr s) = Some s"
| "to_string (JArr xs) = join_elems xs"
| "to_string (JObj ps) =
     (if ''toString'' \<in> set (map fst ps) then None else Some ''[object Object]'')"
| "join_elems [] = Some ''''"
| "join_elems [x] = elem_string x"
| "join_elems (x # y # ys) =
     (case elem_string x of
        None \<Rightarrow> None
      | Some s \<Rightarrow> (case join_elems (y # ys) of None \<Rightarrow> None | Some r \<Rightarrow> Some (s @ '','' @ r)))"
| "elem_string JUndefined = Some ''''"
| "elem_string JNull = Some ''''"
| "elem_string (JBool b) = to_string (JBool b)"
| "elem_string (JNum s) = to_string (JNum s)"
| "elem_string (JStr s) = to_string (JStr s)"
| "elem_string (JArr xs) = to_string (JArr xs)"
| "elem_string (JObj ps) = to_string (JObj ps)"

section \<open>The document store\<close>

text \<open>
  Modelled from the spec: the host collaborator interface (Obsidian's \<open>app.vault\<close>,
  not part of the sources). A path is absent, a document with its content, or a
  container. \<open>getAbstractFileByPath\<close> returns \<open>null\<close>, a \<open>TFile\<close> or a folder
  handle; \<open>create\<close>, \<open>read\<close>, \<open>modify\<close> and \<open>append\<close> do what their names say,
  or throw (\<open>None\<close>). The store may throw for reasons of its own (a missing parent
  folder, an I/O error): \<open>faults\<close> says which calls it rejects.
\<close>

datatype node = Document string | Container

type_synonym vault = "string \<rightharpoonup> node"

datatype abstract_file = TFile string | TFolder string

datatype vault_op =
    OpCreate string string
  | OpRead string
  | OpModify string string
  | OpAppend string string

type_synonym faults = "vault_op \<Rightarrow> bool"

text \<open>
  Modelled from the spec: \<open>exists(path)\<close>, giving Absent, Document or Container; here
  \<open>null\<close>, the file's handle or the folder's.
\<close>

definition getAbstractFileByPath :: "vault \<Rightarrow> string \<Rightarrow> abstract_file option" where
  "getAbstractFileByPath v p =
     (case v p of
        None \<Rightarrow> None
      | Some (Document c) \<Rightarrow> Some (TFile p)
      | Some Container \<Rightarrow> Some (TFolder p))"

text \<open>
  Modelled from the spec: \<open>create(path, content)\<close>. It throws when the store rejects
  the call or the path exists.
\<close>

definition vault_create :: "faults \<Rightarrow> vault \<Rightarrow> string \<Rightarrow> string \<Rightarrow> vault option" where
  "vault_create F v p d =
     (if F (OpCreate p d) then None
      else (case v p of None \<Rightarrow> Some (v(p \<mapsto> Document d)) | Some n \<Rightarrow> None))"

text \<open>
  Modelled from the spec: \<open>read(path)\<close>, \<open>modify(path, content)\<close> and
  \<open>append(path, content)\<close>. Each throws when the store rejects the call or the path
  is not a document.
\<close>

definition vault_read :: "faults \<Rightarrow> vault \<Rightarrow> string \<Rightarrow> string option" where
  "vault_read F v p =
     (if F (OpRead p) then None
      else (case v p of Some (Document c) \<Rightarrow> Some c | _ \<Rightarrow> None))"

definition vault_modify :: "faults \<Rightarrow> vault \<Rightarrow> string \<Rightarrow> string \<Rightarrow> vault option" where
  "vault_modify F v p d =
     (if F (OpModify p d) then None
      else (case v p of Some (Document c) \<Rightarrow> Some (v(p \<mapsto> Document d)) | _ \<Rightarrow> None))"

definition vault_append :: "faults \<Rightarrow> vault \<Rightarrow> string \<Rightarrow> string \<Rightarrow> vault option" where
  "vault_append F v p d =
     (if F (OpAppend p d) then None
      else (case v p of Some (Document c) \<Rightarrow> Some (v(p \<mapsto> Document (c @ d))) | _ \<Rightarrow> None))"

section \<open>loggingServer.ts\<close>

text \<open>
  \<open>LogContext\<close>: the two getters are read once per request, with no suspension point
  between the two reads, so a request sees one value of each. The array
  \<open>recentQueries\<close> and the store are mutated by the handler: they make up the
  \<open>world\<close> that the handler takes and returns. A request is followed from its first
  step to its response with no other request in between: what two requests do when
  their steps interleave at the \<open>await\<close>s is not modelled.
\<close>

record LogContext =
  getLogFileName :: string
  getPrependMode :: bool

record world =
  recentQueries :: "js_val list"
  files :: vault

text \<open>
  A request as the handler reads it. \<open>body\<close> is the outcome of \<open>JSON.parse\<close> on the
  accumulated body text: \<open>None\<close> when it throws a SyntaxError. \<open>JSON.parse\<close> is the
  runtime's and is not modelled further.
\<close>

record request =
  http_method :: string
  url :: string
  body :: "js_val option"

text \<open>
  What the handler does to the outside, in the order it does it: calls of the store,
  console reports, mutations of \<open>recentQueries\<close>, and the response.
\<close>

datatype effect =
    Lookup string
  | Vault vault_op
  | ConsoleWarn
  | ConsoleError
  | Push js_val
  | Shift
  | WriteHead nat "(string \<times> string) list"
  | End

definition cors :: "(string \<times> string) list" where
  "cors = [(''Access-Control-Allow-Origin'', ''*'')]"

definition preflight_headers :: "(string \<times> string) list" where
  "preflight_headers =
     [(''Access-Control-Allow-Origin'', ''*''),
      (''Access-Control-Allow-Methods'', ''POST, OPTIONS''),
      (''Access-Control-Allow-Headers'', ''Content-Type'')]"

text \<open>
  The line of the template literal (line 72), in UTF-8: a tab, an em dash (U+2014) and
  the arrow U+2197 with the variation selector U+FE0F.
\<close>

definition em_dash :: string where
  "em_dash = [CHR 0xE2, CHR 0x80, CHR 0x94]"

definition arrow :: string where
  "arrow = [CHR 0xE2, CHR 0x86, CHR 0x97, CHR 0xEF, CHR 0xB8, CHR 0x8F]"

definition log_line :: "js_val \<Rightarrow> js_val \<Rightarrow> js_val \<Rightarrow> string option" where
  "log_line timestamp query u =
     (case to_string timestamp of
        None \<Rightarrow> None
      | Some ts \<Rightarrow>
          (case to_string query of
             None \<Rightarrow> None
           | Some qs \<Rightarrow>
               (case to_string u of
                  None \<Rightarrow> None
                | Some us \<Rightarrow>
                    Some (''- '' @ ts @ [CHR 0x09] @ em_dash @ '' '' @ qs @ '' ['' @ arrow
                          @ ''](''  @ us @ '')'' @ [CHR 0x0A]))))"

text \<open>
  Lines 74 to 89: the commit. The result is the store after it, or \<open>None\<close> when a call
  of the store throws (the store is then as before), with the calls made.
\<close>

definition commit :: "LogContext \<Rightarrow> faults \<Rightarrow> string \<Rightarrow> string \<Rightarrow> vault \<Rightarrow> vault option \<times> effect list" where
  "commit ctx F effective line v =
     (case getAbstractFileByPath v effective of
        None \<Rightarrow>
          (vault_create F v effective line, [Lookup effective, Vault (OpCreate effective line)])
      | Some (TFile p) \<Rightarrow>
          if getPrependMode ctx then
            (case vault_read F v p of
               None \<Rightarrow> (None, [Lookup effective, Vault (OpRead p)])
             | Some oldContent \<Rightarrow>
                 (vault_modify F v p (line @ oldContent),
                  [Lookup effective, Vault (OpRead p), Vault (OpModify p (line @ oldContent))]))
          else (vault_append F v p line, [Lookup effective, Vault (OpAppend p line)])
      | Some (TFolder p) \<Rightarrow> (Some v, [Lookup effective, ConsoleWarn]))"

text \<open>Lines 91 to 95: push the query, and shift when the array is longer than \<open>MAX_RECENT\<close>.\<close>

definition maintain_buffer :: "js_val list \<Rightarrow> js_val \<Rightarrow> js_val list \<times> effect list" where
  "maintain_buffer buf q =
     (let b = buf @ [q]
      in if length b > MAX_RECENT then (tl b, [Push q, Shift]) else (b, [Push q]))"

text \<open>Lines 100 to 106: the catch block and the \<open>res.end()\<close> after it.\<close>

definition caught :: "effect list" where
  "caught = [ConsoleError, WriteHead 400 cors, End]"

text \<open>Lines 41 to 106: the body of the \<open>end\<close> callback of a POST to \<open>/log\<close>.\<close>

definition post_log :: "LogContext \<Rightarrow> faults \<Rightarrow> js_val option \<Rightarrow> world \<Rightarrow> world \<times> effect list" where
  "post_log ctx F parsed w =
     (case parsed of
        None \<Rightarrow> (w, caught)
      | Some v \<Rightarrow>
          (case destructure v of
             None \<Rightarrow> (w, caught)
           | Some (query, u, timestamp) \<Rightarrow>
               if array_includes (recentQueries w) query then (w, [WriteHead 200 cors, End])
               else
                 (case log_line timestamp query u of
                    None \<Rightarrow> (w, caught)
                  | Some line \<Rightarrow>
                      (case commit ctx F (getLogFileName ctx) line (files w) of
                         (None, tr) \<Rightarrow> (w, tr @ caught)
                       | (Some fs, tr) \<Rightarrow>
                           (case maintain_buffer (recentQueries w) query of
                              (buf, tr2) \<Rightarrow>
                                (\<lparr>recentQueries = buf, files = fs\<rparr>,
                                 tr @ tr2 @ [WriteHead 200 cors, End]))))))"

definition createHttpHandler :: "LogContext \<Rightarrow> faults \<Rightarrow> request \<Rightarrow> world \<Rightarrow> world \<times> effect list" where
  "createHttpHandler ctx F req w =
     (if http_method req = ''OPTIONS'' then (w, [WriteHead 200 preflight_headers, End])
      else if http_method req = ''POST'' \<and> url req = ''/log'' then post_log ctx F (body req) w
      else (w, [WriteHead 404 cors, End]))"

text \<open>
  Requests handled one after the other, each to its end before the next begins. Each
  comes with the settings and the store's faults of its time.
\<close>

fun run :: "(LogContext \<times> faults \<times> request) list \<Rightarrow> world \<Rightarrow> world" where
  "run [] w = w"
| "run ((ctx, F, req) # rest) w = run rest (fst (createHttpHandler ctx F req w))"

text \<open>The status codes written by a sequence of effects.\<close>

fun statuses :: "effect list \<Rightarrow> nat list" where
  "statuses [] = []"
| "statuses (WriteHead s hs # es) = s # statuses es"
| "statuses (e # es) = statuses es"

text \<open>The calls of the store that write: create, modify and append.\<close>

fun writes :: "effect list \<Rightarrow> vault_op list" where
  "writes [] = []"
| "writes (Vault (OpCreate p d) # es) = OpCreate p d # writes es"
| "writes (Vault (OpModify p d) # es) = OpModify p d # writes es"
| "writes (Vault (OpAppend p d) # es) = OpAppend p d # writes es"
| "writes (e # es) = writes es"


fun is_buffer_mutation :: "effect \<Rightarrow> bool" where
  "is_buffer_mutation (Push q) = True"
| "is_buffer_mutation Shift = True"
| "is_buffer_mutation e = False"

text \<open>
  The fields the handler destructures from a request, when it gets that far: the
  request is a POST to \<open>/log\<close>, its body parses, and the destructuring does not throw.
\<close>

definition event_of :: "request \<Rightarrow> (js_val \<times> js_val \<times> js_val) option" where
  "event_of req =
     (if http_method req = ''POST'' \<and> url req = ''/log''
      then (case body req of None \<Rightarrow> None | Some v \<Rightarrow> destructure v)
      else None)"

definition query_of :: "request \<Rightarrow> js_val option" where
  "query_of req = map_option fst (event_of req)"

text \<open>
  The event shape in the specification's words, \<open>{query: string, url: string,
  timestamp: number}\<close>: an object whose three properties have these types. The handler
  has no such test; the predicate is here to state what the handler does with bodies of
  that shape and with the others.
\<close>

fun is_string :: "js_val \<Rightarrow> bool" where
  "is_string (JStr s) = True"
| "is_string v = False"

fun is_number :: "js_val \<Rightarrow> bool" where
  "is_number (JNum n) = True"
| "is_number v = False"

fun event_shape :: "js_val \<Rightarrow> bool" where
  "event_shape (JObj ps) =
     (is_string (get_prop (JObj ps) ''query'') \<and> is_string (get_prop (JObj ps) ''url'')
      \<and> is_number (get_prop (JObj ps) ''timestamp''))"
| "event_shape v = False"




subsection \<open>Sample inputs\<close>

text \<open>
  The scenario of the specification: the settings of \<open>DEFAULT_SETTINGS\<close> (the log file
  \<open>SearchLog.md\<close>, prepend mode), a store that rejects nothing, an empty buffer and an
  empty store, and a POST to \<open>/log\<close> of the query \<open>cats\<close>.
\<close>

definition default_ctx :: LogContext where
  "default_ctx = \<lparr>getLogFileName = ''SearchLog.md'', getPrependMode = True\<rparr>"

definition append_ctx :: LogContext where
  "append_ctx = \<lparr>getLogFileName = ''SearchLog.md'', getPrependMode = False\<rparr>"

definition no_faults :: faults where
  "no_faults = (\<lambda>op. False)"

definition read_only :: faults where
  "read_only = (\<lambda>op. case op of OpRead p \<Rightarrow> False | _ \<Rightarrow> True)"

definition fresh :: world where
  "fresh = \<lparr>recentQueries = [], files = Map.empty\<rparr>"

definition folder_world :: world where
  "folder_world = \<lparr>recentQueries = [], files = [''SearchLog.md'' \<mapsto> Container]\<rparr>"

definition note_world :: world where
  "note_world = \<lparr>recentQueries = [], files = [''SearchLog.md'' \<mapsto> Document ''# Log'']\<rparr>"

definition post :: "js_val option \<Rightarrow> request" where
  "post b = \<lparr>http_method = ''POST'', url = ''/log'', body = b\<rparr>"

definition event :: "string \<Rightarrow> js_val" where
  "event q =
     JObj [(''query'', JStr q), (''url'', JStr (''https://x/?q='' @ q)),
           (''timestamp'', JNum ''1700000000000'')]"

text \<open>The delivery of the query \<open>q\<close> under the default settings, to a store that rejects nothing.\<close>

definition deliver :: "string \<Rightarrow> LogContext \<times> faults \<times> request" where
  "deliver q = (default_ctx, no_faults, post (Some (event q)))"

definition line_of :: "string \<Rightarrow> string" where
  "line_of q =
     ''- 1700000000000'' @ [CHR 0x09] @ em_dash @ '' '' @ q @ '' ['' @ arrow
     @ ''](https://x/?q='' @ q @ '')'' @ [CHR 0x0A]"

section \<open>The listener: main.ts and searchLoggerSettingTab.ts\<close>

text \<open>
  The plugin creates \<open>http.Server\<close> objects, listens and closes. Every server the
  plugin has created is kept in \<open>servers\<close>, at the index that is its identity, with
  its state: idle (created or closed) or listening on a port. \<open>server\<close> is the field
  \<open>this.plugin.server\<close>, \<open>port\<close> is \<open>this.plugin.settings.port\<close> (an integer,
  as every value the settings tab stores is).
\<close>

datatype server_state = Idle | Listening int

record plugin =
  port :: int
  server :: "nat option"
  servers :: "server_state list"

text \<open>An error object: its \<open>code\<close>, when it has one, and its \<open>message\<close>.\<close>

datatype js_error = JsError (err_code: "string option") (err_message: string)

text \<open>
  The operating system, as far as the other processes go: what a bind of a port gives,
  \<open>None\<close> when nothing stands against it. It is an input of every operation that
  listens, since it can change from one bind to the next.
\<close>

type_synonym os_ports = "int \<Rightarrow> js_error option"

text \<open>\<open>createServer\<close>: a new idle server and its identity.\<close>

definition createServer :: "server_state list \<Rightarrow> nat \<times> server_state list" where
  "createServer hp = (length hp, hp @ [Idle])"

text \<open>\<open>server.close()\<close>: the server stops listening and its port is released.\<close>

definition server_close :: "nat \<Rightarrow> server_state list \<Rightarrow> server_state list" where
  "server_close i hp = hp[i := Idle]"

text \<open>
  \<open>server.listen(p)\<close>, with the error (\<open>Inl\<close>) of its \<open>error\<close> event: a server
  that listens already cannot listen again, a port that a server of the plugin holds
  is in use, and otherwise the operating system decides.
\<close>

definition listen :: "os_ports \<Rightarrow> nat \<Rightarrow> int \<Rightarrow> server_state list \<Rightarrow> js_error + server_state list" where
  "listen os i p hp =
     (if \<not> i < length hp \<or> hp ! i \<noteq> Idle then
        Inl (JsError (Some ''ERR_SERVER_ALREADY_LISTEN'') ''server is not idle'')
      else if Listening p \<in> set hp then
        Inl (JsError (Some ''EADDRINUSE'') ''address already in use'')
      else (case os p of Some e \<Rightarrow> Inl e | None \<Rightarrow> Inr (hp[i := Listening p])))"

text \<open>The service answers on a port when one of the plugin's servers listens on it.\<close>

definition reachable :: "plugin \<Rightarrow> int \<Rightarrow> bool" where
  "reachable w p = (Listening p \<in> set (servers w))"

text \<open>
  main.ts, lines 76 to 87 of \<open>onload\<close>: create the server, keep it in
  \<open>this.server\<close> and listen on the port of the settings. The \<open>listen\<close> has no
  \<open>error\<close> listener: a failed bind is an unhandled error, returned here next to the
  state.
\<close>

definition onload :: "os_ports \<Rightarrow> plugin \<Rightarrow> plugin \<times> js_error option" where
  "onload os w =
     (case createServer (servers w) of
        (s, hp) \<Rightarrow>
          (case listen os s (port w) hp of
             Inl e \<Rightarrow> (w\<lparr>server := Some s, servers := hp\<rparr>, Some e)
           | Inr hp' \<Rightarrow> (w\<lparr>server := Some s, servers := hp'\<rparr>, None)))"

text \<open>main.ts, lines 107 to 112: \<open>onunload\<close> closes the server, when there is one.\<close>

definition onunload :: "plugin \<Rightarrow> plugin" where
  "onunload w =
     (case server w of
        None \<Rightarrow> w
      | Some s \<Rightarrow> w\<lparr>server := None, servers := server_close s (servers w)\<rparr>)"


text \<open>The integer that a validated port candidate is.\<close>

fun int_of :: "js_number \<Rightarrow> int" where
  "int_of (Finite r) = \<lfloor>r\<rfloor>"
| "int_of n = 0"


text \<open>
  The state a change of the port starts from: \<open>this.plugin.server\<close> is the
  server \<open>s\<close>, it listens on \<open>p\<close>, the port of the settings is \<open>p\<close>, and no other
  server of the plugin listens. \<open>onload\<close> gives this state when its bind succeeds.
\<close>

definition bound_on :: "plugin \<Rightarrow> nat \<Rightarrow> int \<Rightarrow> bool" where
  "bound_on w s p =
     (server w = Some s \<and> port w = p \<and> s < length (servers w) \<and>
      servers w = (replicate (length (servers w)) Idle)[s := Listening p])"




section \<open>The handler, branch by branch\<close>

lemma same_value_zero_eq: "same_value_zero x q \<Longrightarrow> x = q"
  by (cases x; cases q) auto

lemma array_includes_mem: "array_includes xs q \<Longrightarrow> q \<in> set xs"
  by (auto simp: array_includes_def list_ex_iff dest: same_value_zero_eq)

lemma commit_throws_iff:
  "(fst (commit ctx F p l v) = None) = (\<exists>op. Vault op \<in> set (snd (commit ctx F p l v)) \<and> F op)"
  by (auto simp: commit_def getAbstractFileByPath_def vault_create_def vault_read_def
      vault_modify_def vault_append_def split: option.splits node.splits abstract_file.splits if_splits)

lemma handler_post:
  "http_method req = ''POST'' \<Longrightarrow> url req = ''/log'' \<Longrightarrow>
   createHttpHandler ctx F req w = post_log ctx F (body req) w"
  by (simp add: createHttpHandler_def)

lemma post_log_unparsed: "post_log ctx F None w = (w, caught)"
  by (simp add: post_log_def)

lemma post_log_undestructured:
  "destructure v = None \<Longrightarrow> post_log ctx F (Some v) w = (w, caught)"
  by (simp add: post_log_def)

lemma post_log_duplicate:
  "destructure v = Some (q, u, t) \<Longrightarrow> array_includes (recentQueries w) q \<Longrightarrow>
   post_log ctx F (Some v) w = (w, [WriteHead 200 cors, End])"
  by (simp add: post_log_def)

lemma post_log_unrendered:
  "destructure v = Some (q, u, t) \<Longrightarrow> \<not> array_includes (recentQueries w) q \<Longrightarrow>
   log_line t q u = None \<Longrightarrow> post_log ctx F (Some v) w = (w, caught)"
  by (simp add: post_log_def)

lemma post_log_commit_throws:
  "destructure v = Some (q, u, t) \<Longrightarrow> \<not> array_includes (recentQueries w) q \<Longrightarrow>
   log_line t q u = Some line \<Longrightarrow>
   fst (commit ctx F (getLogFileName ctx) line (files w)) = None \<Longrightarrow>
   post_log ctx F (Some v) w = (w, snd (commit ctx F (getLogFileName ctx) line (files w)) @ caught)"
  by (cases "commit ctx F (getLogFileName ctx) line (files w)") (simp add: post_log_def)

lemma post_log_accepted:
  "destructure v = Some (q, u, t) \<Longrightarrow> \<not> array_includes (recentQueries w) q \<Longrightarrow>
   log_line t q u = Some line \<Longrightarrow>
   fst (commit ctx F (getLogFileName ctx) line (files w)) = Some fs \<Longrightarrow>
   post_log ctx F (Some v) w =
     (\<lparr>recentQueries = fst (maintain_buffer (recentQueries w) q), files = fs\<rparr>,
      snd (commit ctx F (getLogFileName ctx) line (files w))
      @ snd (maintain_buffer (recentQueries w) q) @ [WriteHead 200 cors, End])"
  by (cases "commit ctx F (getLogFileName ctx) line (files w)";
      cases "maintain_buffer (recentQueries w) q") (simp add: post_log_def)

lemma statuses_append: "statuses (xs @ ys) = statuses xs @ statuses ys"
  by (induction xs rule: statuses.induct) auto

lemma statuses_commit: "statuses (snd (commit ctx F p l v)) = []"
  by (auto simp: commit_def split: option.splits abstract_file.splits)

lemma statuses_maintain: "statuses (snd (maintain_buffer buf q)) = []"
  by (auto simp: maintain_buffer_def Let_def)

lemma statuses_caught: "statuses caught = [400]"
  by (simp add: caught_def)

lemma post_log_cases:
  obtains
    (unparsed) "parsed = None" "post_log ctx F parsed w = (w, caught)"
  | (undestructured) v where "parsed = Some v" "destructure v = None"
      "post_log ctx F parsed w = (w, caught)"
  | (duplicate) v q u t where "parsed = Some v" "destructure v = Some (q, u, t)"
      "array_includes (recentQueries w) q"
      "post_log ctx F parsed w = (w, [WriteHead 200 cors, End])"
  | (unrendered) v q u t where "parsed = Some v" "destructure v = Some (q, u, t)"
      "\<not> array_includes (recentQueries w) q" "log_line t q u = None"
      "post_log ctx F parsed w = (w, caught)"
  | (commit_throws) v q u t line where "parsed = Some v" "destructure v = Some (q, u, t)"
      "\<not> array_includes (recentQueries w) q" "log_line t q u = Some line"
      "fst (commit ctx F (getLogFileName ctx) line (files w)) = None"
      "post_log ctx F parsed w =
         (w, snd (commit ctx F (getLogFileName ctx) line (files w)) @ caught)"
  | (accepted) v q u t line fs where "parsed = Some v" "destructure v = Some (q, u, t)"
      "\<not> array_includes (recentQueries w) q" "log_line t q u = Some line"
      "fst (commit ctx F (getLogFileName ctx) line (files w)) = Some fs"
      "post_log ctx F parsed w =
         (\<lparr>recentQueries = fst (maintain_buffer (recentQueries w) q), files = fs\<rparr>,
          snd (commit ctx F (getLogFileName ctx) line (files w))
          @ snd (maintain_buffer (recentQueries w) q) @ [WriteHead 200 cors, End])"
proof (cases parsed)
  case None
  then show ?thesis using unparsed post_log_unparsed by simp
next
  case (Some v)
  show ?thesis
  proof (cases "destructure v")
    case None
    then show ?thesis using undestructured Some post_log_undestructured by simp
  next
    case d: (Some e)
    obtain q u t where e: "e = (q, u, t)" by (cases e) auto
    show ?thesis
    proof (cases "array_includes (recentQueries w) q")
      case True
      then show ?thesis using duplicate Some d e post_log_duplicate by simp
    next
      case nd: False
      show ?thesis
      proof (cases "log_line t q u")
        case None
        then show ?thesis using unrendered Some d e nd post_log_unrendered by simp
      next
        case l: (Some line)
        show ?thesis
        proof (cases "fst (commit ctx F (getLogFileName ctx) line (files w))")
          case None
          then show ?thesis using commit_throws Some d e nd l post_log_commit_throws by simp
        next
          case (Some fs)
          then show ?thesis using accepted \<open>parsed = Some v\<close> d e nd l post_log_accepted by simp
        qed
      qed
    qed
  qed
qed

lemmas sample_defs =
  createHttpHandler_def post_log_def post_def event_def array_includes_def log_line_def
  commit_def getAbstractFileByPath_def vault_create_def vault_read_def vault_modify_def
  vault_append_def maintain_buffer_def MAX_RECENT_def fresh_def default_ctx_def append_ctx_def
  no_faults_def read_only_def line_of_def caught_def folder_world_def note_world_def
  deliver_def

lemma destructure_None_iff: "(destructure v = None) = (v = JNull \<or> v = JUndefined)"
  by (cases v) auto

lemma is_string_cases: "is_string x \<Longrightarrow> \<exists>s. x = JStr s"
  by (cases x) auto

lemma is_number_cases: "is_number x \<Longrightarrow> \<exists>n. x = JNum n"
  by (cases x) auto

lemma event_shape_fields:
  assumes "event_shape v"
  obtains q u t where "destructure v = Some (JStr q, JStr u, JNum t)"
proof -
  from assms obtain ps where v: "v = JObj ps" by (cases v) auto
  have d: "destructure v = Some (get_prop v ''query'', get_prop v ''url'', get_prop v ''timestamp'')"
    unfolding v by simp
  from assms have s: "is_string (get_prop v ''query'')" "is_string (get_prop v ''url'')"
      "is_number (get_prop v ''timestamp'')"
    unfolding v by simp_all
  from s(1) obtain q where q: "get_prop v ''query'' = JStr q" by (auto dest: is_string_cases)
  from s(2) obtain u where u: "get_prop v ''url'' = JStr u" by (auto dest: is_string_cases)
  from s(3) obtain t where t: "get_prop v ''timestamp'' = JNum t" by (auto dest: is_number_cases)
  show ?thesis using that [of q u t] d q u t by simp
qed

lemma log_line_strings: "log_line (JNum t) (JStr q) (JStr u) \<noteq> None"
  by (simp add: log_line_def)

lemma vault_ops_commit_ok:
  "fst (commit ctx F p l v) = Some fs \<Longrightarrow> Vault op \<in> set (snd (commit ctx F p l v)) \<Longrightarrow> \<not> F op"
  using commit_throws_iff [of ctx F p l v] by auto

lemma vault_ops_maintain: "Vault op \<notin> set (snd (maintain_buffer buf q))"
  by (auto simp: maintain_buffer_def Let_def)

lemma event_of_post:
  "http_method req = ''POST'' \<Longrightarrow> url req = ''/log'' \<Longrightarrow> body req = Some v \<Longrightarrow>
   event_of req = destructure v"
  by (simp add: event_of_def)

section \<open>Port validation\<close>

lemma Number_isInteger_iff: "Number_isInteger x = (\<exists>n::int. x = Finite (of_int n))"
  by (cases x) (auto intro: exI[of _ "\<lfloor>_\<rfloor>"])

text \<open>
  C8. \<open>validatePort\<close> returns no error exactly for the integers from 1024 to 65535: it
  returns an error for every number that is not an integer (a fraction, NaN, an
  infinity) and for every integer below 1024 or above 65535, whatever the translation
  function is.
\<close>

theorem validatePort_accepts_exactly_the_range:
  "(validatePort t p = None) =
     (\<exists>n::int. p = Finite (of_int n) \<and> 1024 \<le> n \<and> n \<le> 65535)"
  unfolding validatePort_def Number_isInteger_iff js_gt_def MIN_PORT_def MAX_PORT_def
  by (cases p) auto

text \<open>
  The values the specification names, with the translation that has no dictionary entry
  (\<open>t\<close> then returns the key): 1024 and 65535 are accepted through the theorem, and
  0, 1023, 65536, a fraction and NaN are rejected.
\<close>

theorem validatePort_boundaries_witness:
  "validatePort (\<lambda>k vs. k) (Finite 1024) = None \<and>
   validatePort (\<lambda>k vs. k) (Finite 65535) = None \<and>
   validatePort (\<lambda>k vs. k) (Finite 0) = Some ''settings.error.port_out_range'' \<and>
   validatePort (\<lambda>k vs. k) (Finite 1023) = Some ''settings.error.port_out_range'' \<and>
   validatePort (\<lambda>k vs. k) (Finite 65536) = Some ''settings.error.port_out_range'' \<and>
   validatePort (\<lambda>k vs. k) (Finite (3 / 2)) = Some ''settings.error.port_is_int'' \<and>
   validatePort (\<lambda>k vs. k) NaN = Some ''settings.error.port_is_int''"
proof -
  have lo: "\<exists>n::int. Finite 1024 = Finite (of_int n) \<and> 1024 \<le> n \<and> n \<le> 65535"
    by (intro exI[of _ 1024]) simp
  have hi: "\<exists>n::int. Finite 65535 = Finite (of_int n) \<and> 1024 \<le> n \<and> n \<le> 65535"
    by (intro exI[of _ 65535]) simp
  have "validatePort (\<lambda>k vs. k) (Finite 1024) = None"
    using validatePort_accepts_exactly_the_range [of "\<lambda>k vs. k" "Finite 1024"] lo by simp
  moreover have "validatePort (\<lambda>k vs. k) (Finite 65535) = None"
    using validatePort_accepts_exactly_the_range [of "\<lambda>k vs. k" "Finite 65535"] hi by simp
  moreover have "\<lfloor>3 / 2 :: rat\<rfloor> = 1"
    by (rule floor_unique) simp_all
  ultimately show ?thesis
    by (simp add: validatePort_def js_gt_def MIN_PORT_def MAX_PORT_def)
qed

section \<open>Status codes of \<open>POST /log\<close>\<close>

text \<open>
  C2, as the code has it. The handler has no test of the event shape. A POST to
  \<open>/log\<close> is answered 400 exactly when the \<open>try\<close> block throws: \<open>JSON.parse\<close>
  throws, or the parsed value is \<open>null\<close> (it cannot be destructured; nor can
  \<open>undefined\<close>, which \<open>JSON.parse\<close> never returns), or the line of a
  query that is no duplicate cannot be rendered (a field is an object with an own
  \<open>toString\<close>), or the store rejects a call of the commit. Every other request is
  answered 200, whatever the shape of the body. In particular a body of the event shape
  is answered 400 exactly when the store rejects a call, and 200 otherwise.
\<close>

theorem post_log_status:
  assumes m: "http_method req = ''POST''" and p: "url req = ''/log''"
  shows
    "statuses (snd (createHttpHandler ctx F req w)) =
       (if body req = None \<or> body req = Some JNull \<or> body req = Some JUndefined
           \<or> (\<exists>q u t. event_of req = Some (q, u, t) \<and> \<not> array_includes (recentQueries w) q
                 \<and> log_line t q u = None)
           \<or> (\<exists>op. Vault op \<in> set (snd (createHttpHandler ctx F req w)) \<and> F op)
        then [400] else [200])
     \<and> (\<forall>v. body req = Some v \<and> event_shape v \<longrightarrow>
          statuses (snd (createHttpHandler ctx F req w)) =
            (if \<exists>op. Vault op \<in> set (snd (createHttpHandler ctx F req w)) \<and> F op
             then [400] else [200]))"
proof -
  let ?tr = "snd (createHttpHandler ctx F req w)"
  let ?rejected = "\<exists>op. Vault op \<in> set ?tr \<and> F op"
  have h: "createHttpHandler ctx F req w = post_log ctx F (body req) w"
    using m p by (rule handler_post)
  have first: "statuses ?tr =
       (if body req = None \<or> body req = Some JNull \<or> body req = Some JUndefined
           \<or> (\<exists>q u t. event_of req = Some (q, u, t) \<and> \<not> array_includes (recentQueries w) q
                 \<and> log_line t q u = None)
           \<or> ?rejected
        then [400] else [200])"
  proof (cases rule: post_log_cases [of "body req" ctx F w])
    case unparsed
    then show ?thesis using h by (simp add: statuses_caught)
  next
    case (undestructured v)
    then show ?thesis using h by (auto simp: statuses_caught destructure_None_iff)
  next
    case (duplicate v q u t)
    then have "event_of req = Some (q, u, t)" using m p by (simp add: event_of_post)
    moreover have "v \<noteq> JNull" "v \<noteq> JUndefined" using duplicate(2) by auto
    ultimately show ?thesis using h duplicate by auto
  next
    case (unrendered v q u t)
    then have "event_of req = Some (q, u, t)" using m p by (simp add: event_of_post)
    then show ?thesis using h unrendered by (auto simp: statuses_caught)
  next
    case (commit_throws v q u t line)
    then obtain op where "Vault op \<in> set (snd (commit ctx F (getLogFileName ctx) line (files w)))" "F op"
      using commit_throws_iff [of ctx F "getLogFileName ctx" line "files w"] by auto
    then have ?rejected using h commit_throws(6) by auto
    moreover have "statuses ?tr = [400]"
      using h commit_throws(6) by (simp add: statuses_append statuses_commit statuses_caught)
    ultimately show ?thesis by simp
  next
    case (accepted v q u t line fs)
    have ev: "event_of req = Some (q, u, t)" using accepted m p by (simp add: event_of_post)
    have "v \<noteq> JNull" "v \<noteq> JUndefined" using accepted(2) by auto
    moreover have "\<not> ?rejected"
      using h accepted(6) vault_ops_commit_ok [OF accepted(5)] vault_ops_maintain by auto
    moreover have "statuses ?tr = [200]"
      using h accepted(6) by (simp add: statuses_append statuses_commit statuses_maintain)
    ultimately show ?thesis using accepted(1,4) ev by auto
  qed
  have second: "statuses ?tr = (if ?rejected then [400] else [200])"
    if b: "body req = Some v" and s: "event_shape v" for v
  proof -
    from s obtain q u t where d: "destructure v = Some (JStr q, JStr u, JNum t)"
      by (rule event_shape_fields)
    then have "event_of req = Some (JStr q, JStr u, JNum t)" using m p b by (simp add: event_of_post)
    moreover have "v \<noteq> JNull" "v \<noteq> JUndefined" using d by auto
    ultimately show ?thesis using first b log_line_strings [of t q u] by auto
  qed
  have third: "\<forall>v. body req = Some v \<and> event_shape v \<longrightarrow>
      statuses ?tr = (if ?rejected then [400] else [200])"
  proof (intro allI impI, elim conjE)
    fix v assume "body req = Some v" "event_shape v"
    then show "statuses ?tr = (if ?rejected then [400] else [200])" by (rule second)
  qed
  show ?thesis by (rule conjI [OF first third])
qed

text \<open>
  The body \<open>{}\<close> is not of the event shape and is answered 200 (a line of three
  \<open>undefined\<close> is committed); the body of the query \<open>cats\<close> is of the event shape
  and is answered 400 when the store rejects the \<open>create\<close>.
\<close>

theorem post_log_status_counterexample:
  "\<not> event_shape (JObj []) \<and>
   statuses (snd (createHttpHandler default_ctx no_faults (post (Some (JObj []))) fresh)) = [200] \<and>
   event_shape (event ''cats'') \<and>
   statuses (snd (createHttpHandler default_ctx read_only (post (Some (event ''cats''))) fresh)) = [400]"
  by (simp add: sample_defs cors_def)

theorem post_log_status_witness:
  "http_method (post (Some (event ''cats''))) = ''POST'' \<and>
   url (post (Some (event ''cats''))) = ''/log'' \<and>
   event_shape (event ''cats'') \<and>
   statuses (snd (createHttpHandler default_ctx no_faults (post (Some (event ''cats''))) fresh)) = [200] \<and>
   statuses (snd (createHttpHandler default_ctx no_faults (post None) fresh)) = [400]"
proof -
  have m: "http_method (post b) = ''POST''" and p: "url (post b) = ''/log''" for b
    by (simp_all add: post_def)
  have s: "event_shape (event ''cats'')"
    by (simp add: event_def)
  have quiet: "\<not> (\<exists>op. Vault op \<in> set (snd (createHttpHandler default_ctx no_faults
      (post (Some (event ''cats''))) fresh)) \<and> no_faults op)"
    by (simp add: no_faults_def)
  have b: "body (post (Some (event ''cats''))) = Some (event ''cats'')"
    by (simp add: post_def)
  from post_log_status [where req = "post (Some (event ''cats''))" and ctx = default_ctx
      and F = no_faults and w = fresh, OF m p, THEN conjunct2, THEN spec,
      of "event ''cats''", THEN mp, OF conjI [OF b s]]
  have "statuses (snd (createHttpHandler default_ctx no_faults (post (Some (event ''cats''))) fresh))
      = (if \<exists>op. Vault op \<in> set (snd (createHttpHandler default_ctx no_faults
            (post (Some (event ''cats''))) fresh)) \<and> no_faults op then [400] else [200])" .
  then have ok: "statuses (snd (createHttpHandler default_ctx no_faults
      (post (Some (event ''cats''))) fresh)) = [200]"
    using quiet by simp
  have "body (post None) = None"
    by (simp add: post_def)
  with post_log_status [where req = "post None" and ctx = default_ctx
      and F = no_faults and w = fresh, OF m p, THEN conjunct1]
  have "statuses (snd (createHttpHandler default_ctx no_faults (post None) fresh)) = [400]"
    by simp
  with ok m p s show ?thesis by simp
qed

section \<open>Order of the effects\<close>

lemma mutations_commit: "\<not> list_ex is_buffer_mutation (snd (commit ctx F p l v))"
  by (auto simp: commit_def split: option.splits abstract_file.splits)

lemma mutations_caught: "\<not> list_ex is_buffer_mutation caught"
  by (simp add: caught_def)







lemma writes_append: "writes (xs @ ys) = writes xs @ writes ys"
  by (induction xs rule: writes.induct) auto

lemma writes_maintain: "writes (snd (maintain_buffer buf q)) = []"
  by (simp add: maintain_buffer_def Let_def)

lemma handler_cases:
  obtains
    (preflight) "event_of req = None"
      "createHttpHandler ctx F req w = (w, [WriteHead 200 preflight_headers, End])"
  | (post) "http_method req = ''POST''" "url req = ''/log''"
      "createHttpHandler ctx F req w = post_log ctx F (body req) w"
  | (not_found) "event_of req = None"
      "createHttpHandler ctx F req w = (w, [WriteHead 404 cors, End])"
proof (cases "http_method req = ''OPTIONS''")
  case True
  then have "event_of req = None"
      "createHttpHandler ctx F req w = (w, [WriteHead 200 preflight_headers, End])"
    by (simp_all add: createHttpHandler_def event_of_def)
  then show ?thesis by (rule preflight)
next
  case no: False
  show ?thesis
  proof (cases "http_method req = ''POST'' \<and> url req = ''/log''")
    case True
    then have "http_method req = ''POST''" "url req = ''/log''"
        "createHttpHandler ctx F req w = post_log ctx F (body req) w"
      by (simp_all add: createHttpHandler_def)
    then show ?thesis by (rule post)
  next
    case False
    then have "event_of req = None"
        "createHttpHandler ctx F req w = (w, [WriteHead 404 cors, End])"
      using no by (auto simp: createHttpHandler_def event_of_def)
    then show ?thesis by (rule not_found)
  qed
qed




section \<open>Errors and the buffer\<close>

text \<open>
  C9. Whenever the handler answers 400, for a body that does not parse or for a commit
  that throws, \<open>recentQueries\<close> is as before and the request has mutated it at no point:
  the push comes last in the \<open>try\<close> block, after everything that can throw.
\<close>

theorem error_leaves_buffer:
  assumes "400 \<in> set (statuses (snd (createHttpHandler ctx F req w)))"
  shows "recentQueries (fst (createHttpHandler ctx F req w)) = recentQueries w \<and>
         \<not> list_ex is_buffer_mutation (snd (createHttpHandler ctx F req w))"
proof (cases rule: handler_cases [where ctx = ctx and F = F and req = req and w = w])
  case preflight
  then show ?thesis by simp
next
  case not_found
  then show ?thesis by simp
next
  case post
  note h = post(3)
  show ?thesis
  proof (cases rule: post_log_cases [where parsed = "body req" and ctx = ctx and F = F and w = w])
    case unparsed
    then show ?thesis using h by (simp add: caught_def)
  next
    case (undestructured v)
    then show ?thesis using h by (simp add: caught_def)
  next
    case (duplicate v q u t)
    then show ?thesis using h by simp
  next
    case (unrendered v q u t)
    then show ?thesis using h by (simp add: caught_def)
  next
    case (commit_throws v q u t line)
    then show ?thesis
      using h mutations_commit [of ctx F "getLogFileName ctx" line "files w"] mutations_caught
      by simp
  next
    case (accepted v q u t line fs)
    have "statuses (snd (createHttpHandler ctx F req w)) = [200]"
      using h accepted(6) by (simp add: statuses_append statuses_commit statuses_maintain)
    then show ?thesis using assms by simp
  qed
qed

theorem error_leaves_buffer_witness:
  "400 \<in> set (statuses (snd (createHttpHandler default_ctx read_only (post (Some (event ''cats'')))
       \<lparr>recentQueries = [JStr ''dogs''], files = Map.empty\<rparr>))) \<and>
   recentQueries (fst (createHttpHandler default_ctx read_only (post (Some (event ''cats'')))
       \<lparr>recentQueries = [JStr ''dogs''], files = Map.empty\<rparr>)) = [JStr ''dogs''] \<and>
   400 \<in> set (statuses (snd (createHttpHandler default_ctx no_faults (post None)
       \<lparr>recentQueries = [JStr ''dogs''], files = Map.empty\<rparr>))) \<and>
   recentQueries (fst (createHttpHandler default_ctx no_faults (post None)
       \<lparr>recentQueries = [JStr ''dogs''], files = Map.empty\<rparr>)) = [JStr ''dogs'']"
proof -
  let ?w = "\<lparr>recentQueries = [JStr ''dogs''], files = Map.empty\<rparr>"
  have a: "400 \<in> set (statuses (snd (createHttpHandler default_ctx read_only
      (post (Some (event ''cats''))) ?w)))"
    by (simp add: sample_defs)
  have b: "400 \<in> set (statuses (snd (createHttpHandler default_ctx no_faults (post None) ?w)))"
    by (simp add: sample_defs)
  from error_leaves_buffer [OF a] error_leaves_buffer [OF b] a b show ?thesis by simp
qed

section \<open>Duplicates\<close>

lemma event_of_SomeD:
  assumes "event_of req = Some e"
  obtains v where "http_method req = ''POST''" "url req = ''/log''" "body req = Some v"
    "destructure v = Some e"
  using assms by (auto simp: event_of_def split: if_splits option.splits)

lemma duplicate_request:
  assumes "event_of req = Some (q, u, t)" and "array_includes (recentQueries w) q"
  shows "createHttpHandler ctx F req w = (w, [WriteHead 200 cors, End])"
proof -
  from assms(1) obtain v where v: "http_method req = ''POST''" "url req = ''/log''"
      "body req = Some v" "destructure v = Some (q, u, t)"
    by (rule event_of_SomeD)
  show ?thesis
    using handler_post [OF v(1,2)] post_log_duplicate [OF v(4) assms(2)] v(3) by simp
qed

lemma rendered_request:
  assumes "event_of req = Some (q, u, t)" and "\<not> array_includes (recentQueries w) q"
    and "log_line t q u = Some line"
    and "fst (commit ctx F (getLogFileName ctx) line (files w)) = Some fs"
  shows "createHttpHandler ctx F req w =
     (\<lparr>recentQueries = fst (maintain_buffer (recentQueries w) q), files = fs\<rparr>,
      snd (commit ctx F (getLogFileName ctx) line (files w))
      @ snd (maintain_buffer (recentQueries w) q) @ [WriteHead 200 cors, End])"
proof -
  from assms(1) obtain v where v: "http_method req = ''POST''" "url req = ''/log''"
      "body req = Some v" "destructure v = Some (q, u, t)"
    by (rule event_of_SomeD)
  show ?thesis
    using handler_post [OF v(1,2)] post_log_accepted [OF v(4) assms(2,3,4)] v(3) by simp
qed

lemma accepted_request:
  assumes "event_of req = Some (q, u, t)" and "\<not> array_includes (recentQueries w) q"
    and "statuses (snd (createHttpHandler ctx F req w)) = [200]"
  obtains line fs where "log_line t q u = Some line"
    "fst (commit ctx F (getLogFileName ctx) line (files w)) = Some fs"
proof -
  from assms(1) obtain v where v: "http_method req = ''POST''" "url req = ''/log''"
      "body req = Some v" "destructure v = Some (q, u, t)"
    by (rule event_of_SomeD)
  note h = handler_post [OF v(1,2), of ctx F w]
  show ?thesis
  proof (cases "log_line t q u")
    case None
    then show ?thesis
      using h post_log_unrendered [OF v(4) assms(2)] v(3) assms(3)
      by (simp add: statuses_caught)
  next
    case (Some line)
    show ?thesis
    proof (cases "fst (commit ctx F (getLogFileName ctx) line (files w))")
      case None
      then show ?thesis
        using h post_log_commit_throws [OF v(4) assms(2) Some] v(3) assms(3)
        by (simp add: statuses_append statuses_commit statuses_caught)
    next
      case fs: (Some fs)
      show ?thesis using Some fs by (rule that)
    qed
  qed
qed

lemma maintain_buffer_includes:
  assumes "same_value_zero q q"
  shows "array_includes (fst (maintain_buffer buf q)) q"
proof (cases buf)
  case Nil
  then show ?thesis using assms by (simp add: maintain_buffer_def array_includes_def MAX_RECENT_def)
next
  case (Cons x xs)
  then show ?thesis
    using assms by (simp add: maintain_buffer_def Let_def array_includes_def)
qed

lemma commit_container:
  "v p = Some Container \<Longrightarrow> commit ctx F p l v = (Some v, [Lookup p, ConsoleWarn])"
  by (simp add: commit_def getAbstractFileByPath_def)

lemma commit_absent:
  "v p = None \<Longrightarrow>
   commit ctx F p l v =
     ((if F (OpCreate p l) then None else Some (v(p \<mapsto> Document l))),
      [Lookup p, Vault (OpCreate p l)])"
  by (simp add: commit_def getAbstractFileByPath_def vault_create_def)

lemma commit_append:
  "v p = Some (Document old) \<Longrightarrow> \<not> getPrependMode ctx \<Longrightarrow>
   commit ctx F p l v =
     ((if F (OpAppend p l) then None else Some (v(p \<mapsto> Document (old @ l)))),
      [Lookup p, Vault (OpAppend p l)])"
  by (simp add: commit_def getAbstractFileByPath_def vault_append_def)

lemma commit_prepend:
  "v p = Some (Document old) \<Longrightarrow> getPrependMode ctx \<Longrightarrow>
   commit ctx F p l v =
     (if F (OpRead p) then (None, [Lookup p, Vault (OpRead p)])
      else ((if F (OpModify p (l @ old)) then None else Some (v(p \<mapsto> Document (l @ old)))),
            [Lookup p, Vault (OpRead p), Vault (OpModify p (l @ old))]))"
  by (simp add: commit_def getAbstractFileByPath_def vault_read_def vault_modify_def)

lemma writes_commit:
  assumes "fst (commit ctx F p l v) = Some fs"
  shows "length (writes (snd (commit ctx F p l v))) = (if v p = Some Container then 0 else 1)"
proof (cases "v p")
  case None
  then show ?thesis by (simp add: commit_absent)
next
  case (Some n)
  show ?thesis
  proof (cases n)
    case Container
    then show ?thesis using Some by (simp add: commit_container)
  next
    case (Document old)
    then show ?thesis
      using Some assms
      by (cases "getPrependMode ctx") (simp_all add: commit_append commit_prepend split: if_splits)
  qed
qed

text \<open>
  C4, as the code has it. A POST to \<open>/log\<close> whose query is in \<open>recentQueries\<close> is
  answered 200 with no call of the store, and leaves the buffer and the store as they
  were. Consequently: when a query that is a primitive value (a string, as the event
  shape has it) and is not in the buffer is submitted and answered 200, it is in the
  buffer afterwards; and a second submission of it, made while it is in the buffer (the
  very next request is), writes nothing, so that the two submissions together write the
  document once when the target of the first was absent or a document, and not at all
  when it was a container.
\<close>

theorem duplicate_is_skipped:
  "(event_of req = Some (q, u, t) \<and> array_includes (recentQueries w) q \<longrightarrow>
      createHttpHandler ctx F req w = (w, [WriteHead 200 cors, End])) \<and>
   (event_of r1 = Some (q, u1, t1) \<and> event_of r2 = Some (q, u2, t2) \<and> same_value_zero q q \<and>
    \<not> array_includes (recentQueries w) q \<and>
    statuses (snd (createHttpHandler c1 F1 r1 w)) = [200] \<longrightarrow>
      array_includes (recentQueries (fst (createHttpHandler c1 F1 r1 w))) q \<and>
      (\<forall>w'. array_includes (recentQueries w') q \<longrightarrow>
         createHttpHandler c2 F2 r2 w' = (w', [WriteHead 200 cors, End]) \<and>
         length (writes (snd (createHttpHandler c1 F1 r1 w))
                 @ writes (snd (createHttpHandler c2 F2 r2 w'))) =
           (if files w (getLogFileName c1) = Some Container then 0 else 1)))"
proof (intro conjI impI allI; (elim conjE)?)
  assume "event_of req = Some (q, u, t)" "array_includes (recentQueries w) q"
  then show "createHttpHandler ctx F req w = (w, [WriteHead 200 cors, End])"
    by (rule duplicate_request)
next
  assume e1: "event_of r1 = Some (q, u1, t1)"
    and prim: "same_value_zero q q" and nd: "\<not> array_includes (recentQueries w) q"
    and ok: "statuses (snd (createHttpHandler c1 F1 r1 w)) = [200]"
  from e1 nd ok obtain line fs where l: "log_line t1 q u1 = Some line"
    and c: "fst (commit c1 F1 (getLogFileName c1) line (files w)) = Some fs"
    by (rule accepted_request)
  show "array_includes (recentQueries (fst (createHttpHandler c1 F1 r1 w))) q"
    using rendered_request [OF e1 nd l c] maintain_buffer_includes [OF prim] by simp
next
  fix w' :: world
  assume e2: "event_of r2 = Some (q, u2, t2)" and inc: "array_includes (recentQueries w') q"
  then show "createHttpHandler c2 F2 r2 w' = (w', [WriteHead 200 cors, End])"
    by (rule duplicate_request)
next
  fix w' :: world
  assume e1: "event_of r1 = Some (q, u1, t1)" and e2: "event_of r2 = Some (q, u2, t2)"
    and nd: "\<not> array_includes (recentQueries w) q"
    and ok: "statuses (snd (createHttpHandler c1 F1 r1 w)) = [200]"
    and inc: "array_includes (recentQueries w') q"
  from e1 nd ok obtain line fs where l: "log_line t1 q u1 = Some line"
    and c: "fst (commit c1 F1 (getLogFileName c1) line (files w)) = Some fs"
    by (rule accepted_request)
  have first: "length (writes (snd (createHttpHandler c1 F1 r1 w))) =
      (if files w (getLogFileName c1) = Some Container then 0 else 1)"
    using rendered_request [OF e1 nd l c] writes_commit [OF c]
    by (simp add: writes_append writes_maintain)
  have second: "createHttpHandler c2 F2 r2 w' = (w', [WriteHead 200 cors, End])"
    using e2 inc by (rule duplicate_request)
  show "length (writes (snd (createHttpHandler c1 F1 r1 w))
      @ writes (snd (createHttpHandler c2 F2 r2 w'))) =
      (if files w (getLogFileName c1) = Some Container then 0 else 1)"
    unfolding second using first by simp
qed

text \<open>
  The same query twice while the target is a folder: the first submission is dropped and
  recorded, the second is a duplicate, and no line is committed, not one.
\<close>

theorem duplicate_is_skipped_counterexample:
  "array_includes
     (recentQueries (fst (createHttpHandler default_ctx no_faults (post (Some (event ''cats'')))
                            folder_world)))
     (JStr ''cats'') \<and>
   length
     (writes (snd (createHttpHandler default_ctx no_faults (post (Some (event ''cats'')))
                     folder_world))
      @ writes (snd (createHttpHandler default_ctx no_faults (post (Some (event ''cats'')))
                       (fst (createHttpHandler default_ctx no_faults
                               (post (Some (event ''cats''))) folder_world))))) = 0"
  by (simp add: sample_defs)

theorem duplicate_is_skipped_witness:
  "createHttpHandler default_ctx no_faults (post (Some (event ''cats'')))
     \<lparr>recentQueries = [JStr ''cats''], files = Map.empty\<rparr> =
     (\<lparr>recentQueries = [JStr ''cats''], files = Map.empty\<rparr>, [WriteHead 200 cors, End]) \<and>
   statuses (snd (createHttpHandler default_ctx no_faults (post (Some (event ''cats''))) fresh)) = [200] \<and>
   array_includes
     (recentQueries (fst (createHttpHandler default_ctx no_faults (post (Some (event ''cats'')))
                            fresh)))
     (JStr ''cats'') \<and>
   length
     (writes (snd (createHttpHandler default_ctx no_faults (post (Some (event ''cats''))) fresh))
      @ writes (snd (createHttpHandler append_ctx read_only (post (Some (event ''cats'')))
                       (fst (createHttpHandler default_ctx no_faults
                               (post (Some (event ''cats''))) fresh))))) = 1"
proof -
  let ?r = "post (Some (event ''cats''))"
  let ?w = "\<lparr>recentQueries = [JStr ''cats''], files = Map.empty\<rparr>"
  have ev: "event_of ?r = Some (JStr ''cats'', JStr ''https://x/?q=cats'', JNum ''1700000000000'')"
    by (simp add: event_of_def post_def event_def)
  have inc: "array_includes (recentQueries ?w) (JStr ''cats'')"
    by (simp add: array_includes_def)
  have a: "createHttpHandler default_ctx no_faults ?r ?w = (?w, [WriteHead 200 cors, End])"
    by (rule duplicate_is_skipped [THEN conjunct1, THEN mp, OF conjI [OF ev inc]])
  have prim: "same_value_zero (JStr ''cats'') (JStr ''cats'')"
    by simp
  have nd: "\<not> array_includes (recentQueries fresh) (JStr ''cats'')"
    by (simp add: fresh_def array_includes_def)
  have ok: "statuses (snd (createHttpHandler default_ctx no_faults ?r fresh)) = [200]"
    by (simp add: sample_defs)
  have target: "files fresh (getLogFileName default_ctx) \<noteq> Some Container"
    by (simp add: fresh_def)
  note b = duplicate_is_skipped [where ?c1.0 = default_ctx and ?F1.0 = no_faults
      and ?c2.0 = append_ctx and ?F2.0 = read_only and w = fresh,
      THEN conjunct2, THEN mp, OF conjI [OF ev conjI [OF ev conjI [OF prim conjI [OF nd ok]]]]]
  note recorded = b [THEN conjunct1]
  note twice = b [THEN conjunct2, THEN spec, THEN mp, OF recorded, THEN conjunct2]
  from a ok recorded twice target show ?thesis by simp
qed

section \<open>A container as target\<close>

text \<open>
  C7. When the log file path denotes a folder, an event that reaches the commit (its
  query is no duplicate and its line renders) makes one call of the store, the lookup,
  and none of \<open>create\<close>, \<open>read\<close>, \<open>modify\<close> and \<open>append\<close>; the handler warns on
  the console, answers 200, and leaves the store as it was.
\<close>

theorem container_target_is_skipped:
  assumes "event_of req = Some (q, u, t)"
    and "\<not> array_includes (recentQueries w) q"
    and "log_line t q u = Some line"
    and "files w (getLogFileName ctx) = Some Container"
  shows "snd (createHttpHandler ctx F req w) =
           [Lookup (getLogFileName ctx), ConsoleWarn]
           @ snd (maintain_buffer (recentQueries w) q) @ [WriteHead 200 cors, End] \<and>
         (\<forall>op. Vault op \<notin> set (snd (createHttpHandler ctx F req w))) \<and>
         ConsoleWarn \<in> set (snd (createHttpHandler ctx F req w)) \<and>
         statuses (snd (createHttpHandler ctx F req w)) = [200] \<and>
         files (fst (createHttpHandler ctx F req w)) = files w"
proof -
  have c: "commit ctx F (getLogFileName ctx) line (files w) =
      (Some (files w), [Lookup (getLogFileName ctx), ConsoleWarn])"
    using assms(4) by (rule commit_container)
  then have "fst (commit ctx F (getLogFileName ctx) line (files w)) = Some (files w)"
    by simp
  from rendered_request [OF assms(1,2,3) this] c
  have h: "createHttpHandler ctx F req w =
      (\<lparr>recentQueries = fst (maintain_buffer (recentQueries w) q), files = files w\<rparr>,
       [Lookup (getLogFileName ctx), ConsoleWarn]
       @ snd (maintain_buffer (recentQueries w) q) @ [WriteHead 200 cors, End])"
    by simp
  show ?thesis
    unfolding h using vault_ops_maintain [of _ "recentQueries w" q]
    by (simp add: statuses_append statuses_maintain)
qed

theorem container_target_is_skipped_witness:
  "event_of (post (Some (event ''cats''))) =
     Some (JStr ''cats'', JStr ''https://x/?q=cats'', JNum ''1700000000000'') \<and>
   \<not> array_includes (recentQueries folder_world) (JStr ''cats'') \<and>
   log_line (JNum ''1700000000000'') (JStr ''cats'') (JStr ''https://x/?q=cats'') =
     Some (line_of ''cats'') \<and>
   files folder_world (getLogFileName default_ctx) = Some Container \<and>
   createHttpHandler default_ctx no_faults (post (Some (event ''cats''))) folder_world =
     (\<lparr>recentQueries = [JStr ''cats''], files = [''SearchLog.md'' \<mapsto> Container]\<rparr>,
      [Lookup ''SearchLog.md'', ConsoleWarn, Push (JStr ''cats''), WriteHead 200 cors, End])"
proof -
  have ev: "event_of (post (Some (event ''cats''))) =
      Some (JStr ''cats'', JStr ''https://x/?q=cats'', JNum ''1700000000000'')"
    by (simp add: event_of_def post_def event_def)
  have nd: "\<not> array_includes (recentQueries folder_world) (JStr ''cats'')"
    by (simp add: folder_world_def array_includes_def)
  have l: "log_line (JNum ''1700000000000'') (JStr ''cats'') (JStr ''https://x/?q=cats'') =
      Some (line_of ''cats'')"
    by (simp add: log_line_def line_of_def)
  have f: "files folder_world (getLogFileName default_ctx) = Some Container"
    by (simp add: folder_world_def default_ctx_def)
  have w: "fst (createHttpHandler default_ctx no_faults (post (Some (event ''cats''))) folder_world) =
      \<lparr>recentQueries = [JStr ''cats''], files = [''SearchLog.md'' \<mapsto> Container]\<rparr>"
    by (simp add: sample_defs)
  from container_target_is_skipped [OF ev nd l f, where F = no_faults, THEN conjunct1]
  have "snd (createHttpHandler default_ctx no_faults (post (Some (event ''cats''))) folder_world) =
      [Lookup ''SearchLog.md'', ConsoleWarn, Push (JStr ''cats''), WriteHead 200 cors, End]"
    by (simp add: default_ctx_def folder_world_def maintain_buffer_def MAX_RECENT_def)
  with ev nd l f w show ?thesis by (simp add: prod_eq_iff)
qed

text \<open>
  C10. An event dropped because the log file path denotes a folder is recorded all the
  same: nothing is written for it, its query is in \<open>recentQueries\<close> afterwards, and the
  same query (a primitive value, as a string is) submitted next is a duplicate, answered
  200 with no call of the store.
\<close>

theorem dropped_query_is_recorded:
  assumes "event_of req = Some (q, u, t)"
    and "\<not> array_includes (recentQueries w) q"
    and "log_line t q u = Some line"
    and "files w (getLogFileName ctx) = Some Container"
    and "same_value_zero q q"
    and "event_of req' = Some (q, u', t')"
  shows "writes (snd (createHttpHandler ctx F req w)) = [] \<and>
         array_includes (recentQueries (fst (createHttpHandler ctx F req w))) q \<and>
         createHttpHandler ctx' F' req' (fst (createHttpHandler ctx F req w)) =
           (fst (createHttpHandler ctx F req w), [WriteHead 200 cors, End])"
proof -
  have c: "commit ctx F (getLogFileName ctx) line (files w) =
      (Some (files w), [Lookup (getLogFileName ctx), ConsoleWarn])"
    using assms(4) by (rule commit_container)
  then have "fst (commit ctx F (getLogFileName ctx) line (files w)) = Some (files w)"
    by simp
  from rendered_request [OF assms(1,2,3) this] c
  have h: "createHttpHandler ctx F req w =
      (\<lparr>recentQueries = fst (maintain_buffer (recentQueries w) q), files = files w\<rparr>,
       [Lookup (getLogFileName ctx), ConsoleWarn]
       @ snd (maintain_buffer (recentQueries w) q) @ [WriteHead 200 cors, End])"
    by simp
  have a: "writes (snd (createHttpHandler ctx F req w)) = []"
    unfolding h by (simp add: writes_append writes_maintain)
  have b: "array_includes (recentQueries (fst (createHttpHandler ctx F req w))) q"
    unfolding h using maintain_buffer_includes [OF assms(5)] by simp
  have "createHttpHandler ctx' F' req' (fst (createHttpHandler ctx F req w)) =
      (fst (createHttpHandler ctx F req w), [WriteHead 200 cors, End])"
    using assms(6) b by (rule duplicate_request)
  with a b show ?thesis by simp
qed

theorem dropped_query_is_recorded_witness:
  "event_of (post (Some (event ''cats''))) =
     Some (JStr ''cats'', JStr ''https://x/?q=cats'', JNum ''1700000000000'') \<and>
   \<not> array_includes (recentQueries folder_world) (JStr ''cats'') \<and>
   log_line (JNum ''1700000000000'') (JStr ''cats'') (JStr ''https://x/?q=cats'') =
     Some (line_of ''cats'') \<and>
   files folder_world (getLogFileName default_ctx) = Some Container \<and>
   same_value_zero (JStr ''cats'') (JStr ''cats'') \<and>
   writes (snd (createHttpHandler default_ctx no_faults (post (Some (event ''cats''))) folder_world)) = [] \<and>
   recentQueries (fst (createHttpHandler default_ctx no_faults (post (Some (event ''cats''))) folder_world))
     = [JStr ''cats''] \<and>
   createHttpHandler default_ctx no_faults (post (Some (event ''cats'')))
     (fst (createHttpHandler default_ctx no_faults (post (Some (event ''cats''))) folder_world)) =
     (fst (createHttpHandler default_ctx no_faults (post (Some (event ''cats''))) folder_world),
      [WriteHead 200 cors, End])"
proof -
  have ev: "event_of (post (Some (event ''cats''))) =
      Some (JStr ''cats'', JStr ''https://x/?q=cats'', JNum ''1700000000000'')"
    by (simp add: event_of_def post_def event_def)
  have nd: "\<not> array_includes (recentQueries folder_world) (JStr ''cats'')"
    by (simp add: folder_world_def array_includes_def)
  have l: "log_line (JNum ''1700000000000'') (JStr ''cats'') (JStr ''https://x/?q=cats'') =
      Some (line_of ''cats'')"
    by (simp add: log_line_def line_of_def)
  have f: "files folder_world (getLogFileName default_ctx) = Some Container"
    by (simp add: folder_world_def default_ctx_def)
  have prim: "same_value_zero (JStr ''cats'') (JStr ''cats'')"
    by simp
  have buf: "recentQueries (fst (createHttpHandler default_ctx no_faults
      (post (Some (event ''cats''))) folder_world)) = [JStr ''cats'']"
    by (simp add: sample_defs)
  note d = dropped_query_is_recorded [OF ev nd l f prim ev, where F = no_faults
      and ctx' = default_ctx and F' = no_faults]
  from ev nd l f prim buf d [THEN conjunct1] d [THEN conjunct2, THEN conjunct2]
  show ?thesis by simp
qed

section \<open>The commit\<close>

lemma commit_result:
  assumes "fst (commit ctx F p l v) = Some fs"
  shows "fs = (case v p of
                 None \<Rightarrow> v(p \<mapsto> Document l)
               | Some (Document old) \<Rightarrow>
                   v(p \<mapsto> Document (if getPrependMode ctx then l @ old else old @ l))
               | Some Container \<Rightarrow> v)"
proof (cases "v p")
  case None
  then show ?thesis using assms by (simp add: commit_absent split: if_splits)
next
  case (Some n)
  show ?thesis
  proof (cases n)
    case Container
    then show ?thesis using Some assms by (simp add: commit_container)
  next
    case (Document old)
    then show ?thesis
      using Some assms
      by (cases "getPrependMode ctx") (simp_all add: commit_append commit_prepend split: if_splits)
  qed
qed

text \<open>
  C6. For an accepted event (its query is no duplicate and the request is answered 200)
  the store after the request is the store before it with the log file changed as
  follows, \<open>line\<close> being the line of the event: a file that did not exist is created
  holding exactly the line, in both modes; an existing document gets the line after its
  content in append mode, and before its content in prepend mode. No other path changes.
\<close>

theorem commit_writes_the_line:
  assumes "event_of req = Some (q, u, t)"
    and "\<not> array_includes (recentQueries w) q"
    and "statuses (snd (createHttpHandler ctx F req w)) = [200]"
  shows "\<exists>line. log_line t q u = Some line \<and>
     (files w (getLogFileName ctx) = None \<longrightarrow>
        files (fst (createHttpHandler ctx F req w)) =
          (files w)(getLogFileName ctx \<mapsto> Document line)) \<and>
     (\<forall>old. files w (getLogFileName ctx) = Some (Document old) \<and> \<not> getPrependMode ctx \<longrightarrow>
        files (fst (createHttpHandler ctx F req w)) =
          (files w)(getLogFileName ctx \<mapsto> Document (old @ line))) \<and>
     (\<forall>old. files w (getLogFileName ctx) = Some (Document old) \<and> getPrependMode ctx \<longrightarrow>
        files (fst (createHttpHandler ctx F req w)) =
          (files w)(getLogFileName ctx \<mapsto> Document (line @ old)))"
proof -
  from assms obtain line fs where l: "log_line t q u = Some line"
    and c: "fst (commit ctx F (getLogFileName ctx) line (files w)) = Some fs"
    by (rule accepted_request)
  have "files (fst (createHttpHandler ctx F req w)) = fs"
    using rendered_request [OF assms(1,2) l c] by simp
  then have "files (fst (createHttpHandler ctx F req w)) =
      (case files w (getLogFileName ctx) of
         None \<Rightarrow> (files w)(getLogFileName ctx \<mapsto> Document line)
       | Some (Document old) \<Rightarrow>
           (files w)(getLogFileName ctx \<mapsto> Document (if getPrependMode ctx then line @ old else old @ line))
       | Some Container \<Rightarrow> files w)"
    using commit_result [OF c] by simp
  then show ?thesis using l by (intro exI [of _ line]) simp
qed

theorem commit_writes_the_line_witness:
  "event_of (post (Some (event ''cats''))) =
     Some (JStr ''cats'', JStr ''https://x/?q=cats'', JNum ''1700000000000'') \<and>
   statuses (snd (createHttpHandler default_ctx no_faults (post (Some (event ''cats''))) fresh)) = [200] \<and>
   files (fst (createHttpHandler default_ctx no_faults (post (Some (event ''cats''))) fresh)) =
     [''SearchLog.md'' \<mapsto> Document (line_of ''cats'')] \<and>
   statuses (snd (createHttpHandler append_ctx no_faults (post (Some (event ''cats''))) fresh)) = [200] \<and>
   files (fst (createHttpHandler append_ctx no_faults (post (Some (event ''cats''))) fresh)) =
     [''SearchLog.md'' \<mapsto> Document (line_of ''cats'')] \<and>
   statuses (snd (createHttpHandler append_ctx no_faults (post (Some (event ''cats''))) note_world)) = [200] \<and>
   files (fst (createHttpHandler append_ctx no_faults (post (Some (event ''cats''))) note_world)) =
     [''SearchLog.md'' \<mapsto> Document (''# Log'' @ line_of ''cats'')] \<and>
   statuses (snd (createHttpHandler default_ctx no_faults (post (Some (event ''cats''))) note_world)) = [200] \<and>
   files (fst (createHttpHandler default_ctx no_faults (post (Some (event ''cats''))) note_world)) =
     [''SearchLog.md'' \<mapsto> Document (line_of ''cats'' @ ''# Log'')]"
proof -
  let ?r = "post (Some (event ''cats''))"
  have ev: "event_of ?r = Some (JStr ''cats'', JStr ''https://x/?q=cats'', JNum ''1700000000000'')"
    by (simp add: event_of_def post_def event_def)
  have l: "log_line (JNum ''1700000000000'') (JStr ''cats'') (JStr ''https://x/?q=cats'') =
      Some (line_of ''cats'')"
    by (simp add: log_line_def line_of_def)
  have nd: "\<not> array_includes (recentQueries fresh) (JStr ''cats'')"
      "\<not> array_includes (recentQueries note_world) (JStr ''cats'')"
    by (simp_all add: fresh_def note_world_def array_includes_def)
  have ok: "statuses (snd (createHttpHandler default_ctx no_faults ?r fresh)) = [200]"
      "statuses (snd (createHttpHandler append_ctx no_faults ?r fresh)) = [200]"
      "statuses (snd (createHttpHandler append_ctx no_faults ?r note_world)) = [200]"
      "statuses (snd (createHttpHandler default_ctx no_faults ?r note_world)) = [200]"
    by (simp_all add: sample_defs)
  have a: "files (fst (createHttpHandler default_ctx no_faults ?r fresh)) =
      [''SearchLog.md'' \<mapsto> Document (line_of ''cats'')]"
    using commit_writes_the_line [OF ev nd(1) ok(1)] l
    by (simp add: fresh_def default_ctx_def)
  have b: "files (fst (createHttpHandler append_ctx no_faults ?r fresh)) =
      [''SearchLog.md'' \<mapsto> Document (line_of ''cats'')]"
    using commit_writes_the_line [OF ev nd(1) ok(2)] l
    by (simp add: fresh_def append_ctx_def)
  have c: "files (fst (createHttpHandler append_ctx no_faults ?r note_world)) =
      [''SearchLog.md'' \<mapsto> Document (''# Log'' @ line_of ''cats'')]"
    using commit_writes_the_line [OF ev nd(2) ok(3)] l
    by (simp add: note_world_def append_ctx_def)
  have d: "files (fst (createHttpHandler default_ctx no_faults ?r note_world)) =
      [''SearchLog.md'' \<mapsto> Document (line_of ''cats'' @ ''# Log'')]"
    using commit_writes_the_line [OF ev nd(2) ok(4)] l
    by (simp add: note_world_def default_ctx_def)
  from ev ok a b c d show ?thesis by simp
qed

section \<open>The buffer of recent queries\<close>

lemma maintain_buffer_fifo:
  "fst (maintain_buffer buf q) = (if length buf < MAX_RECENT then buf @ [q] else tl buf @ [q])"
  by (cases buf) (auto simp: maintain_buffer_def Let_def MAX_RECENT_def)

lemma maintain_buffer_length:
  "length buf \<le> MAX_RECENT \<Longrightarrow> length (fst (maintain_buffer buf q)) \<le> MAX_RECENT"
  by (auto simp: maintain_buffer_def Let_def)

lemma maintain_buffer_set: "set (fst (maintain_buffer buf q)) \<subseteq> insert q (set buf)"
  by (cases buf) (auto simp: maintain_buffer_def Let_def)

lemma handler_buffer:
  "recentQueries (fst (createHttpHandler ctx F req w)) = recentQueries w \<or>
   (\<exists>q. query_of req = Some q \<and>
      recentQueries (fst (createHttpHandler ctx F req w)) = fst (maintain_buffer (recentQueries w) q))"
proof (cases rule: handler_cases [where ctx = ctx and F = F and req = req and w = w])
  case preflight
  then show ?thesis by simp
next
  case not_found
  then show ?thesis by simp
next
  case post
  note h = post(3)
  show ?thesis
  proof (cases rule: post_log_cases [where parsed = "body req" and ctx = ctx and F = F and w = w])
    case (accepted v q u t line fs)
    have "query_of req = Some q"
      using accepted(1,2) post(1,2) by (simp add: query_of_def event_of_post)
    then show ?thesis using h accepted(6) by simp
  qed (simp_all add: h)
qed

lemma handler_length:
  assumes "length (recentQueries w) \<le> MAX_RECENT"
  shows "length (recentQueries (fst (createHttpHandler ctx F req w))) \<le> MAX_RECENT"
  using handler_buffer [of ctx F req w] maintain_buffer_length [OF assms] assms by auto

lemma run_length:
  "length (recentQueries w) \<le> MAX_RECENT \<Longrightarrow> length (recentQueries (run steps w)) \<le> MAX_RECENT"
proof (induction steps arbitrary: w)
  case Nil
  then show ?case by simp
next
  case (Cons s steps)
  obtain ctx F req where s: "s = (ctx, F, req)" by (cases s) auto
  show ?case unfolding s using Cons.IH [OF handler_length [OF Cons.prems]] by simp
qed

lemma handler_set:
  "set (recentQueries (fst (createHttpHandler ctx F req w))) \<subseteq>
   set (recentQueries w) \<union> {q. query_of req = Some q}"
proof (rule disjE [OF handler_buffer [of ctx F req w]])
  assume "recentQueries (fst (createHttpHandler ctx F req w)) = recentQueries w"
  then show ?thesis by simp
next
  assume "\<exists>q. query_of req = Some q \<and>
      recentQueries (fst (createHttpHandler ctx F req w)) = fst (maintain_buffer (recentQueries w) q)"
  then obtain q where q: "query_of req = Some q"
      "recentQueries (fst (createHttpHandler ctx F req w)) = fst (maintain_buffer (recentQueries w) q)"
    by auto
  show ?thesis
    unfolding q(2) using maintain_buffer_set [of "recentQueries w" q] q(1) by auto
qed

lemma run_set:
  "set (recentQueries (run steps w)) \<subseteq>
   set (recentQueries w) \<union> {q. Some q \<in> set (map (\<lambda>s. query_of (snd (snd s))) steps)}"
proof (induction steps arbitrary: w)
  case Nil
  then show ?case by simp
next
  case (Cons s steps)
  obtain ctx F req where s: "s = (ctx, F, req)" by (cases s) auto
  have "set (recentQueries (run (s # steps) w)) \<subseteq>
      set (recentQueries (fst (createHttpHandler ctx F req w)))
      \<union> {q. Some q \<in> set (map (\<lambda>s. query_of (snd (snd s))) steps)}"
    unfolding s using Cons.IH [of "fst (createHttpHandler ctx F req w)"] by simp
  also have "\<dots> \<subseteq> set (recentQueries w)
      \<union> {q. Some q \<in> set (map (\<lambda>s. query_of (snd (snd s))) (s # steps))}"
    unfolding s using handler_set [of ctx F req w] by auto
  finally show ?case .
qed

lemma nth_not_in_take:
  assumes "distinct xs" and "i < length xs"
  shows "xs ! i \<notin> set (take i xs)"
proof -
  have "xs = take i xs @ xs ! i # drop (Suc i) xs"
    using assms(2) by (rule id_take_nth_drop)
  then have "distinct (take i xs @ xs ! i # drop (Suc i) xs)"
    using assms(1) by simp
  then show ?thesis by simp
qed

lemma distinct_queries_are_new:
  assumes empty: "recentQueries w = []"
    and qs: "map (\<lambda>s. query_of (snd (snd s))) steps = map Some qs"
    and d: "distinct qs" and i: "i < length qs"
  shows "\<not> array_includes (recentQueries (run (take i steps) w)) (qs ! i)"
proof
  assume "array_includes (recentQueries (run (take i steps) w)) (qs ! i)"
  then have "qs ! i \<in> set (recentQueries (run (take i steps) w))"
    by (rule array_includes_mem)
  then have "Some (qs ! i) \<in> set (map (\<lambda>s. query_of (snd (snd s))) (take i steps))"
    using run_set [of "take i steps" w] empty by auto
  also have "map (\<lambda>s. query_of (snd (snd s))) (take i steps) = map Some (take i qs)"
    using qs by (simp add: take_map [symmetric])
  finally have "qs ! i \<in> set (take i qs)" by auto
  then show False using nth_not_in_take [OF d i] by simp
qed

text \<open>
  C5. \<open>MAX_RECENT\<close> is 3. Starting from the empty buffer, after every sequence of
  requests the buffer holds at most \<open>MAX_RECENT\<close> queries. A request leaves the buffer
  as it was or records its query at the end of it, and when the buffer is full the
  oldest (first) entry is dropped. Hence when the queries of a sequence of requests are
  pairwise distinct (three of them, or any number), none of them is in the buffer when
  its request arrives: none is treated as a duplicate.
\<close>

theorem recent_queries_bounded_fifo:
  "MAX_RECENT = 3 \<and>
   (recentQueries w = [] \<longrightarrow> length (recentQueries (run steps w)) \<le> MAX_RECENT) \<and>
   (recentQueries (fst (createHttpHandler ctx F req w)) = recentQueries w \<or>
    (\<exists>q. query_of req = Some q \<and>
       recentQueries (fst (createHttpHandler ctx F req w)) =
         (if length (recentQueries w) < MAX_RECENT then recentQueries w @ [q]
          else tl (recentQueries w) @ [q]))) \<and>
   (recentQueries w = [] \<and> map (\<lambda>s. query_of (snd (snd s))) steps = map Some qs \<and>
    distinct qs \<and> i < length qs \<longrightarrow>
      \<not> array_includes (recentQueries (run (take i steps) w)) (qs ! i))"
proof (intro conjI impI; (elim conjE)?)
  show "MAX_RECENT = 3" by (simp add: MAX_RECENT_def)
next
  assume "recentQueries w = []"
  then have "length (recentQueries w) \<le> MAX_RECENT" by simp
  then show "length (recentQueries (run steps w)) \<le> MAX_RECENT" by (rule run_length)
next
  show "recentQueries (fst (createHttpHandler ctx F req w)) = recentQueries w \<or>
    (\<exists>q. query_of req = Some q \<and>
       recentQueries (fst (createHttpHandler ctx F req w)) =
         (if length (recentQueries w) < MAX_RECENT then recentQueries w @ [q]
          else tl (recentQueries w) @ [q]))"
    using handler_buffer [of ctx F req w] unfolding maintain_buffer_fifo .
next
  assume "recentQueries w = []" "map (\<lambda>s. query_of (snd (snd s))) steps = map Some qs"
    "distinct qs" "i < length qs"
  then show "\<not> array_includes (recentQueries (run (take i steps) w)) (qs ! i)"
    by (rule distinct_queries_are_new)
qed

text \<open>
  Four queries in a row on the fresh state: the fourth evicts the first. And the third
  of three distinct queries is not in the buffer that the first two have left.
\<close>

theorem recent_queries_bounded_fifo_witness:
  "recentQueries fresh = [] \<and>
   recentQueries (run [deliver ''cats'', deliver ''dogs'', deliver ''birds'', deliver ''fish''] fresh) =
     [JStr ''dogs'', JStr ''birds'', JStr ''fish''] \<and>
   length (recentQueries
     (run [deliver ''cats'', deliver ''dogs'', deliver ''birds'', deliver ''fish''] fresh)) \<le> MAX_RECENT \<and>
   map (\<lambda>s. query_of (snd (snd s))) [deliver ''cats'', deliver ''dogs'', deliver ''birds''] =
     map Some [JStr ''cats'', JStr ''dogs'', JStr ''birds''] \<and>
   distinct [JStr ''cats'', JStr ''dogs'', JStr ''birds''] \<and>
   recentQueries (run [deliver ''cats'', deliver ''dogs''] fresh) = [JStr ''cats'', JStr ''dogs''] \<and>
   \<not> array_includes (recentQueries (run [deliver ''cats'', deliver ''dogs''] fresh)) (JStr ''birds'')"
proof -
  let ?four = "[deliver ''cats'', deliver ''dogs'', deliver ''birds'', deliver ''fish'']"
  let ?three = "[deliver ''cats'', deliver ''dogs'', deliver ''birds'']"
  let ?qs = "[JStr ''cats'', JStr ''dogs'', JStr ''birds'']"
  have e: "recentQueries fresh = []"
    by (simp add: fresh_def)
  have four: "recentQueries (run ?four fresh) = [JStr ''dogs'', JStr ''birds'', JStr ''fish'']"
    by (simp add: sample_defs)
  have two: "recentQueries (run [deliver ''cats'', deliver ''dogs''] fresh) =
      [JStr ''cats'', JStr ''dogs'']"
    by (simp add: sample_defs)
  have len: "length (recentQueries (run ?four fresh)) \<le> MAX_RECENT"
    by (rule recent_queries_bounded_fifo [where w = fresh and steps = ?four,
          THEN conjunct2, THEN conjunct1, THEN mp, OF e])
  have qs: "map (\<lambda>s. query_of (snd (snd s))) ?three = map Some ?qs"
    by (simp add: deliver_def query_of_def event_of_def post_def event_def)
  have d: "distinct ?qs"
    by simp
  have i: "(2::nat) < length ?qs"
    by simp
  have "\<not> array_includes (recentQueries (run (take 2 ?three) fresh)) (?qs ! 2)"
    by (rule recent_queries_bounded_fifo [where w = fresh and steps = ?three and qs = ?qs
          and i = 2, THEN conjunct2, THEN conjunct2, THEN conjunct2, THEN mp,
          OF conjI [OF e conjI [OF qs conjI [OF d i]]]])
  then have new: "\<not> array_includes (recentQueries (run [deliver ''cats'', deliver ''dogs''] fresh))
      (JStr ''birds'')"
    by simp
  from e four two len qs d new show ?thesis by simp
qed

section \<open>Rebinding the listener\<close>

lemma idle_update_idle: "(replicate n Idle)[i := Idle] = replicate n Idle"
  by (induction n arbitrary: i) (auto split: nat.split)


lemma listen_idle:
  "s < n \<Longrightarrow>
   listen os s p (replicate n Idle) =
     (case os p of Some e \<Rightarrow> Inl e | None \<Rightarrow> Inr ((replicate n Idle)[s := Listening p]))"
  by (simp add: listen_def)


lemma unreachable_idle: "servers w = replicate n Idle \<Longrightarrow> \<not> reachable w q"
  by (simp add: reachable_def)

lemma int_of_int: "int_of (Finite (of_int n)) = n"
  by simp





lemma onload_bound:
  assumes "servers w = replicate n Idle" and "os (port w) = None"
  shows "bound_on (fst (onload os w)) n (port w)" and "snd (onload os w) = None"
proof -
  have created: "createServer (servers w) = (n, replicate (Suc n) Idle)"
    using assms(1) by (simp add: createServer_def replicate_append_same)
  have first: "listen os n (port w) (replicate (Suc n) Idle) =
      Inr ((replicate (Suc n) Idle)[n := Listening (port w)])"
    using assms(2) by (subst listen_idle) simp_all
  have o: "onload os w =
      (w\<lparr>server := Some n, servers := (replicate (Suc n) Idle)[n := Listening (port w)]\<rparr>, None)"
    unfolding onload_def by (simp add: created first del: replicate_Suc)
  show "bound_on (fst (onload os w)) n (port w)"
    unfolding o by (simp add: bound_on_def del: replicate_Suc)
  show "snd (onload os w) = None"
    unfolding o by simp
qed

lemma onunload_unreachable: "bound_on w s p \<Longrightarrow> \<not> reachable (onunload w) q"
  by (simp add: bound_on_def onunload_def server_close_def reachable_def)
    (metis idle_update_idle list_update_overwrite in_set_replicate server_state.distinct(1))





end
